theory Spec2Isabelle
  imports Main
begin

section \<open>Python values, exceptions and string operations\<close>

text \<open>
  The program is \<^verbatim>\<open>chat_forwarder.py\<close>. A Python \<^verbatim>\<open>str\<close> is a \<^typ>\<open>string\<close>; a
  character is one of the code points U+0000 to U+00FF. The objects that
  \<^verbatim>\<open>json.load\<close> can return are the values of \<open>pyval\<close>: a number keeps the
  text of its literal, a dict is an association list with distinct keys in insertion
  order.
\<close>

datatype pyval =
    PyNone
  | PyBool bool
  | PyNum string
  | PyStr string
  | PyList "pyval list"
  | PyDict "(string \<times> pyval) list"

text \<open>
  The exceptions that leave the functions of the program. \<open>OutsideModel\<close> is not a
  Python exception: it marks a config file whose JSON text denotes a character beyond
  U+00FF, about which this development says nothing.
\<close>

datatype exn = OSError | AttributeError | EOFError | OutsideModel

definition startswith :: "string \<Rightarrow> string \<Rightarrow> bool" where
  "startswith s p = (take (length p) s = p)"

text \<open>\<^verbatim>\<open>str.isspace\<close> on the code points below U+0100.\<close>

definition isspace :: "char \<Rightarrow> bool" where
  "isspace c = (let n = (of_char c :: nat) in
     (9 \<le> n \<and> n \<le> 13) \<or> (28 \<le> n \<and> n \<le> 32) \<or> n = 133 \<or> n = 160)"

definition strip :: "string \<Rightarrow> string" where
  "strip s = rev (dropWhile isspace (rev (dropWhile isspace s)))"

definition digit_char :: "nat \<Rightarrow> char" where
  "digit_char d = ''0123456789'' ! (d mod 10)"

fun str_nat :: "nat \<Rightarrow> string" where
  "str_nat n = (if n < 10 then [digit_char n] else str_nat (n div 10) @ [digit_char n])"

declare str_nat.simps [simp del]

definition str_int :: "int \<Rightarrow> string" where
  "str_int i = (if i < 0 then CHR ''-'' # str_nat (nat (- i)) else str_nat (nat i))"

section \<open>The JSON text written by \<^verbatim>\<open>json.dump\<close>\<close>

definition hex_char :: "nat \<Rightarrow> char" where
  "hex_char d = ''0123456789abcdef'' ! (d mod 16)"

text \<open>
  \<^verbatim>\<open>encode_basestring_ascii\<close>: the printable ASCII characters other than the quote
  and the backslash stand for themselves, seven characters have a two-character
  escape, every other character is written \<^verbatim>\<open>\u00XX\<close> in lower-case hexadecimal.
\<close>

definition escape_char :: "char \<Rightarrow> string" where
  "escape_char c =
     (if c = CHR 0x22 then [CHR 0x5C, CHR 0x22]
      else if c = CHR 0x5C then [CHR 0x5C, CHR 0x5C]
      else if c = CHR 0x08 then [CHR 0x5C, CHR ''b'']
      else if c = CHR 0x0C then [CHR 0x5C, CHR ''f'']
      else if c = CHR 0x0A then [CHR 0x5C, CHR ''n'']
      else if c = CHR 0x0D then [CHR 0x5C, CHR ''r'']
      else if c = CHR 0x09 then [CHR 0x5C, CHR ''t'']
      else if 32 \<le> (of_char c :: nat) \<and> (of_char c :: nat) \<le> 126 then [c]
      else [CHR 0x5C, CHR ''u'', CHR ''0'', CHR ''0'',
            hex_char ((of_char c :: nat) div 16), hex_char (of_char c :: nat)])"

definition encode_basestring_ascii :: "string \<Rightarrow> string" where
  "encode_basestring_ascii s = CHR 0x22 # concat (map escape_char s) @ [CHR 0x22]"

text \<open>
  \<^verbatim>\<open>json.dump({key: value}, f, indent=2)\<close> for a dict of one string value: the
  brace, a line break and two spaces, the key, a colon and a space, the value, a line
  break, the closing brace.
\<close>

definition json_dump_indent2 :: "string \<Rightarrow> string \<Rightarrow> string" where
  "json_dump_indent2 key val =
     CHR ''{'' # CHR 0x0A # ''  '' @ encode_basestring_ascii key @ '': '' @
     encode_basestring_ascii val @ [CHR 0x0A, CHR ''}'']"

section \<open>The JSON text read by \<^verbatim>\<open>json.load\<close>\<close>

text \<open>
  The scanner of the standard library, on the text of the file. It fails with
  \<open>JSONDecodeError\<close> (a \<^verbatim>\<open>ValueError\<close>) where the library does. \<open>NonLatin1\<close>
  is the outcome for a \<^verbatim>\<open>\uXXXX\<close> escape above U+00FF, which the strings of this
  development cannot hold. The depth limit of the interpreter and its limit on the
  digits of an integer are not part of the model.
\<close>

datatype json_error = JSONDecodeError | NonLatin1

definition json_ws :: "char \<Rightarrow> bool" where
  "json_ws c = (c = CHR '' '' \<or> c = CHR 0x09 \<or> c = CHR 0x0A \<or> c = CHR 0x0D)"

definition skip_ws :: "string \<Rightarrow> string" where
  "skip_ws s = dropWhile json_ws s"

definition hexval :: "char \<Rightarrow> nat option" where
  "hexval c = (let n = (of_char c :: nat) in
     if 48 \<le> n \<and> n \<le> 57 then Some (n - 48)
     else if 97 \<le> n \<and> n \<le> 102 then Some (n - 87)
     else if 65 \<le> n \<and> n \<le> 70 then Some (n - 55)
     else None)"

definition hex4 :: "char \<Rightarrow> char \<Rightarrow> char \<Rightarrow> char \<Rightarrow> nat option" where
  "hex4 a b c d =
     (case hexval a of None \<Rightarrow> None | Some p \<Rightarrow>
      case hexval b of None \<Rightarrow> None | Some q \<Rightarrow>
      case hexval c of None \<Rightarrow> None | Some r \<Rightarrow>
      case hexval d of None \<Rightarrow> None | Some s \<Rightarrow>
        Some (((p * 16 + q) * 16 + r) * 16 + s))"

definition backslash :: "char \<Rightarrow> char option" where
  "backslash e =
     (if e = CHR 0x22 then Some (CHR 0x22)
      else if e = CHR 0x5C then Some (CHR 0x5C)
      else if e = CHR ''/'' then Some (CHR ''/'')
      else if e = CHR ''b'' then Some (CHR 0x08)
      else if e = CHR ''f'' then Some (CHR 0x0C)
      else if e = CHR ''n'' then Some (CHR 0x0A)
      else if e = CHR ''r'' then Some (CHR 0x0D)
      else if e = CHR ''t'' then Some (CHR 0x09)
      else None)"

definition cons_char :: "char \<Rightarrow> json_error + string \<times> string \<Rightarrow> json_error + string \<times> string" where
  "cons_char c r = (case r of Inl e \<Rightarrow> Inl e | Inr (s, rest) \<Rightarrow> Inr (c # s, rest))"

text \<open>
  \<open>scanstring\<close> takes the text after the opening quote and returns the decoded string
  and the text after the closing quote (strict mode: a raw control character is an
  error).
\<close>

fun scanstring :: "string \<Rightarrow> json_error + string \<times> string" where
  "scanstring [] = Inl JSONDecodeError"
| "scanstring (c # cs) =
     (if c = CHR 0x22 then Inr ([], cs)
      else if c = CHR 0x5C then
        (case cs of
           [] \<Rightarrow> Inl JSONDecodeError
         | e # es \<Rightarrow>
             if e = CHR ''u'' then
               (case es of
                  h1 # h2 # h3 # h4 # rest \<Rightarrow>
                    (case hex4 h1 h2 h3 h4 of
                       None \<Rightarrow> Inl JSONDecodeError
                     | Some n \<Rightarrow>
                         if n < 256 then cons_char (char_of n) (scanstring rest)
                         else Inl NonLatin1)
                | _ \<Rightarrow> Inl JSONDecodeError)
             else
               (case backslash e of
                  None \<Rightarrow> Inl JSONDecodeError
                | Some ch \<Rightarrow> cons_char ch (scanstring es)))
      else if (of_char c :: nat) < 32 then Inl JSONDecodeError
      else cons_char c (scanstring cs))"

definition is_digit :: "char \<Rightarrow> bool" where
  "is_digit c = (48 \<le> (of_char c :: nat) \<and> (of_char c :: nat) \<le> 57)"

text \<open>
  The number pattern
  \<^verbatim>\<open>(-?(?:0|[1-9][0-9]*))(\.[0-9]+)?([eE][-+]?[0-9]+)?\<close>, one group at a time:
  each function returns the text its group matched and the text after it.
\<close>

definition match_integer :: "string \<Rightarrow> (string \<times> string) option" where
  "match_integer s =
     (let (sign, t) = (case s of c # u \<Rightarrow> if c = CHR ''-'' then ([c], u) else ([], s) | [] \<Rightarrow> ([], s))
      in case t of
           [] \<Rightarrow> None
         | d # u \<Rightarrow>
             if d = CHR ''0'' then Some (sign @ [d], u)
             else if is_digit d then Some (sign @ d # takeWhile is_digit u, dropWhile is_digit u)
             else None)"

definition match_frac :: "string \<Rightarrow> string \<times> string" where
  "match_frac s =
     (case s of
        c # u \<Rightarrow>
          if c = CHR ''.'' \<and> takeWhile is_digit u \<noteq> []
          then (c # takeWhile is_digit u, dropWhile is_digit u) else ([], s)
      | [] \<Rightarrow> ([], s))"

definition match_exp :: "string \<Rightarrow> string \<times> string" where
  "match_exp s =
     (case s of
        c # u \<Rightarrow>
          if c = CHR ''e'' \<or> c = CHR ''E'' then
            (let (sign, t) = (case u of g # v \<Rightarrow> if g = CHR ''+'' \<or> g = CHR ''-'' then ([g], v) else ([], u)
                              | [] \<Rightarrow> ([], u))
             in if takeWhile is_digit t \<noteq> []
                then (c # sign @ takeWhile is_digit t, dropWhile is_digit t) else ([], s))
          else ([], s)
      | [] \<Rightarrow> ([], s))"

definition match_number :: "string \<Rightarrow> (string \<times> string) option" where
  "match_number s =
     (case match_integer s of
        None \<Rightarrow> None
      | Some (i, r1) \<Rightarrow>
          (let (f, r2) = match_frac r1; (e, r3) = match_exp r2 in Some (i @ f @ e, r3)))"

text \<open>
  The constants and numbers of \<^verbatim>\<open>scan_once\<close>, in the order the library tries them.
\<close>

definition scan_atom :: "string \<Rightarrow> json_error + pyval \<times> string" where
  "scan_atom s =
     (if startswith s ''null'' then Inr (PyNone, drop 4 s)
      else if startswith s ''true'' then Inr (PyBool True, drop 4 s)
      else if startswith s ''false'' then Inr (PyBool False, drop 5 s)
      else case match_number s of
             Some (lexeme, rest) \<Rightarrow> Inr (PyNum lexeme, rest)
           | None \<Rightarrow>
               if startswith s ''NaN'' then Inr (PyNum ''NaN'', drop 3 s)
               else if startswith s ''Infinity'' then Inr (PyNum ''Infinity'', drop 8 s)
               else if startswith s ''-Infinity'' then Inr (PyNum ''-Infinity'', drop 9 s)
               else Inl JSONDecodeError)"

text \<open>\<^verbatim>\<open>dict(pairs)\<close>: a later pair replaces the value of an earlier one with its key.\<close>

fun dict_set :: "string \<Rightarrow> pyval \<Rightarrow> (string \<times> pyval) list \<Rightarrow> (string \<times> pyval) list" where
  "dict_set k v [] = [(k, v)]"
| "dict_set k v ((k', v') # d) = (if k = k' then (k, v) # d else (k', v') # dict_set k v d)"

definition dict_of_pairs :: "(string \<times> pyval) list \<Rightarrow> (string \<times> pyval) list" where
  "dict_of_pairs ps = foldl (\<lambda>d (k, v). dict_set k v d) [] ps"

text \<open>
  \<open>scan_once\<close>, with the loops of \<^verbatim>\<open>JSONArray\<close> (\<open>array_items\<close>, at the start of
  an item) and of \<^verbatim>\<open>JSONObject\<close> (\<open>object_members\<close>, after the opening quote of a
  key). Each returns the value and the text after it. The tests on lengths before a
  recursive call hold in every run, since a value takes at least one character
  (\<open>scan_shorter\<close> below, and the equations \<open>scan_once_unfold\<close>,
  \<open>array_items_unfold\<close> and \<open>object_members_unfold\<close> without the tests); they make
  the recursion well-founded.
\<close>

function scan_once :: "string \<Rightarrow> json_error + pyval \<times> string"
  and array_items :: "string \<Rightarrow> pyval list \<Rightarrow> json_error + pyval \<times> string"
  and object_members :: "string \<Rightarrow> (string \<times> pyval) list \<Rightarrow> json_error + pyval \<times> string"
where
  "scan_once s =
     (case s of
        [] \<Rightarrow> Inl JSONDecodeError
      | c # cs \<Rightarrow>
          if c = CHR 0x22 then
            (case scanstring cs of Inl e \<Rightarrow> Inl e | Inr (str, rest) \<Rightarrow> Inr (PyStr str, rest))
          else if c = CHR ''{'' then
            (case skip_ws cs of
               [] \<Rightarrow> Inl JSONDecodeError
             | d # ds \<Rightarrow>
                 if d = CHR ''}'' then Inr (PyDict [], ds)
                 else if d = CHR 0x22 \<and> length ds < length s then object_members ds []
                 else Inl JSONDecodeError)
          else if c = CHR ''['' then
            (case skip_ws cs of
               [] \<Rightarrow> Inl JSONDecodeError
             | d # ds \<Rightarrow>
                 if d = CHR '']'' then Inr (PyList [], ds)
                 else if length (d # ds) < length s then array_items (d # ds) []
                 else Inl JSONDecodeError)
          else scan_atom s)"
| "array_items s vals =
     (case scan_once s of
        Inl e \<Rightarrow> Inl e
      | Inr (v, rest) \<Rightarrow>
          (case skip_ws rest of
             [] \<Rightarrow> Inl JSONDecodeError
           | d # ds \<Rightarrow>
               if d = CHR '']'' then Inr (PyList (vals @ [v]), ds)
               else if d = CHR '','' then
                 (if length (skip_ws ds) < length s then array_items (skip_ws ds) (vals @ [v])
                  else Inl JSONDecodeError)
               else Inl JSONDecodeError))"
| "object_members s pairs =
     (case scanstring s of
        Inl e \<Rightarrow> Inl e
      | Inr (key, r0) \<Rightarrow>
          (case skip_ws r0 of
             [] \<Rightarrow> Inl JSONDecodeError
           | c # r1 \<Rightarrow>
               if c = CHR '':'' \<and> length (skip_ws r1) < length s then
                 (case scan_once (skip_ws r1) of
                    Inl e \<Rightarrow> Inl e
                  | Inr (v, r2) \<Rightarrow>
                      (case skip_ws r2 of
                         [] \<Rightarrow> Inl JSONDecodeError
                       | d # r3 \<Rightarrow>
                           if d = CHR ''}'' then Inr (PyDict (dict_of_pairs (pairs @ [(key, v)])), r3)
                           else if d = CHR '','' then
                             (case skip_ws r3 of
                                [] \<Rightarrow> Inl JSONDecodeError
                              | q # r4 \<Rightarrow>
                                  if q = CHR 0x22 \<and> length r4 < length s
                                  then object_members r4 (pairs @ [(key, v)])
                                  else Inl JSONDecodeError)
                           else Inl JSONDecodeError))
               else Inl JSONDecodeError))"
  by pat_completeness auto
termination
  by (relation "measures
        [\<lambda>x. case x of Inl s \<Rightarrow> length s | Inr (Inl (s, _)) \<Rightarrow> length s | Inr (Inr (s, _)) \<Rightarrow> length s,
         \<lambda>x. case x of Inl _ \<Rightarrow> 0 | Inr _ \<Rightarrow> Suc 0]")
     auto

declare scan_once.simps [simp del] array_items.simps [simp del] object_members.simps [simp del]

text \<open>
  \<^verbatim>\<open>json.loads\<close>: one value between optional whitespace, and nothing after it.
\<close>

definition json_loads :: "string \<Rightarrow> json_error + pyval" where
  "json_loads s =
     (case scan_once (skip_ws s) of
        Inl e \<Rightarrow> Inl e
      | Inr (v, rest) \<Rightarrow> if skip_ws rest = [] then Inr v else Inl JSONDecodeError)"

section \<open>The config file\<close>

text \<open>
  What \<^verbatim>\<open>config.json\<close> is on disk: no such path; a path that exists and that
  \<^verbatim>\<open>open\<close> refuses with an \<^verbatim>\<open>OSError\<close> (a directory, or a file whose
  permissions deny access); a file whose bytes are not text in the encoding of the
  locale; a file holding the given text.
\<close>

datatype file_state = Absent | Unopenable | Undecodable | Text string

definition CONFIG_KEY :: string where
  "CONFIG_KEY = ''discord_webhook_url''"

definition WEBHOOK_PREFIX :: string where
  "WEBHOOK_PREFIX = ''https://discord.com/api/webhooks/''"

text \<open>\<^verbatim>\<open>data.get(key, default)\<close>: only a dict has the method.\<close>

definition py_get :: "pyval \<Rightarrow> string \<Rightarrow> pyval \<Rightarrow> exn + pyval" where
  "py_get data key dflt =
     (case data of
        PyDict d \<Rightarrow> Inr (case map_of d key of Some v \<Rightarrow> v | None \<Rightarrow> dflt)
      | _ \<Rightarrow> Inl AttributeError)"

text \<open>
  \<open>load_config\<close>: the \<^verbatim>\<open>except\<close> clause catches \<^verbatim>\<open>ValueError\<close> (the undecodable
  bytes, the malformed JSON) and nothing else.
\<close>

definition load_config :: "file_state \<Rightarrow> exn + pyval" where
  "load_config f =
     (case f of
        Absent \<Rightarrow> Inr (PyStr '''')
      | Unopenable \<Rightarrow> Inl OSError
      | Undecodable \<Rightarrow> Inr (PyStr '''')
      | Text s \<Rightarrow>
          (case json_loads s of
             Inl JSONDecodeError \<Rightarrow> Inr (PyStr '''')
           | Inl NonLatin1 \<Rightarrow> Inl OutsideModel
           | Inr data \<Rightarrow> py_get data CONFIG_KEY (PyStr '''')))"

definition save_config :: "string \<Rightarrow> file_state \<Rightarrow> exn + file_state" where
  "save_config url f =
     (case f of
        Unopenable \<Rightarrow> Inl OSError
      | _ \<Rightarrow> Inr (Text (json_dump_indent2 CONFIG_KEY url)))"

section \<open>The startup prompt\<close>

text \<open>
  Standard input is the list of the lines still to be read; \<^verbatim>\<open>input()\<close> at its end
  raises \<^verbatim>\<open>EOFError\<close>. The result is the returned URL or the exception, the config
  file afterwards, and the lines not read.
\<close>

fun prompt_for_webhook :: "string list \<Rightarrow> file_state \<Rightarrow> (exn + string) \<times> file_state \<times> string list" where
  "prompt_for_webhook [] f = (Inl EOFError, f, [])"
| "prompt_for_webhook (line # rest) f =
     (let url = strip line in
      if startswith url WEBHOOK_PREFIX then
        (case save_config url f of
           Inl e \<Rightarrow> (Inl e, f, rest)
         | Inr f' \<Rightarrow> (Inr url, f', rest))
      else prompt_for_webhook rest f)"

text \<open>
  \<open>main\<close>, from the check of the stored URL to the call of \<^verbatim>\<open>uvicorn.run\<close>:
  \<open>Inr url\<close> is the server started with \<^verbatim>\<open>webhook_url = url\<close>, \<open>Inl e\<close> the
  exception that ends the process before that.
\<close>

definition main :: "string list \<Rightarrow> file_state \<Rightarrow> (exn + string) \<times> file_state \<times> string list" where
  "main stdin f =
     (case load_config f of
        Inl e \<Rightarrow> (Inl e, f, stdin)
      | Inr (PyStr webhook_url) \<Rightarrow>
          if \<not> startswith webhook_url WEBHOOK_PREFIX then prompt_for_webhook stdin f
          else (Inr webhook_url, f, stdin)
      | Inr _ \<Rightarrow> (Inl AttributeError, f, stdin))"

section \<open>The forwarding handler\<close>

record response =
  status_code :: int
  reason :: string
  resp_url :: string

text \<open>
  What \<^verbatim>\<open>requests.post\<close> does: it returns a response, or raises an exception \<open>e\<close>
  with \<^verbatim>\<open>str(e)\<close> the given text. The network is the function from the URL and the
  JSON payload of a request to that outcome.
\<close>

datatype post_outcome = Responds response | Raises string

type_synonym network = "string \<Rightarrow> pyval \<Rightarrow> post_outcome"

definition reply_with :: "post_outcome \<Rightarrow> network" where
  "reply_with outcome target payload = outcome"

text \<open>
  \<^verbatim>\<open>Response.raise_for_status\<close>: the message of the \<^verbatim>\<open>HTTPError\<close> it raises, for a
  status from 400 to 599, and nothing for any other status.
\<close>

definition raise_for_status :: "response \<Rightarrow> string option" where
  "raise_for_status r =
     (if 400 \<le> status_code r \<and> status_code r < 500 then
        Some (str_int (status_code r) @ '' Client Error: '' @ reason r @ '' for url: '' @ resp_url r)
      else if 500 \<le> status_code r \<and> status_code r < 600 then
        Some (str_int (status_code r) @ '' Server Error: '' @ reason r @ '' for url: '' @ resp_url r)
      else None)"

record datetime =
  hour :: nat
  minute :: nat

text \<open>\<^verbatim>\<open>strftime("%H:%M")\<close>: two digits each.\<close>

definition strftime_HM :: "datetime \<Rightarrow> string" where
  "strftime_HM t =
     [digit_char (hour t div 10), digit_char (hour t), CHR '':'',
      digit_char (minute t div 10), digit_char (minute t)]"

text \<open>
  The state a request runs in: the config file and the POST requests sent so far, each
  with its URL and JSON payload.
\<close>

record world =
  config_file :: file_state
  outbox :: "(string \<times> pyval) list"

definition requests_post :: "network \<Rightarrow> string \<Rightarrow> pyval \<Rightarrow> world \<Rightarrow> post_outcome \<times> world" where
  "requests_post net target payload w =
     (net target payload, w\<lparr>outbox := outbox w @ [(target, payload)]\<rparr>)"

text \<open>
  \<open>forwarder\<close> returns the dict of its \<^verbatim>\<open>return\<close> statement, or the exception that
  leaves it, and the state afterwards.
\<close>

definition forwarder :: "network \<Rightarrow> datetime \<Rightarrow> string \<Rightarrow> string \<Rightarrow> world \<Rightarrow> (exn + (string \<times> string) list) \<times> world" where
  "forwarder net now sender message w =
     (case load_config (config_file w) of
        Inl e \<Rightarrow> (Inl e, w)
      | Inr (PyStr u) \<Rightarrow>
          if \<not> startswith u WEBHOOK_PREFIX then
            (Inr [(''status'', ''error''), (''detail'', ''Discord webhook not configured correctly.'')], w)
          else
            (let timestamp = strftime_HM now;
                 content = timestamp @ '' [**'' @ sender @ ''**]: `'' @ message @ ''`'';
                 (outcome, w') = requests_post net u (PyDict [(''content'', PyStr content)]) w
             in case outcome of
                  Raises e \<Rightarrow> (Inr [(''status'', ''error''), (''detail'', e)], w')
                | Responds resp \<Rightarrow>
                    (case raise_for_status resp of
                       Some e \<Rightarrow> (Inr [(''status'', ''error''), (''detail'', e)], w')
                     | None \<Rightarrow> (Inr [(''status'', ''forwarded'')], w')))
      | Inr _ \<Rightarrow> (Inl AttributeError, w))"

section \<open>The scanner consumes its input\<close>

text \<open>
  Every successful scan returns a text strictly shorter than the one it was given.
  Hence the tests on lengths in \<open>scan_once\<close>, \<open>array_items\<close> and
  \<open>object_members\<close> never fail, and the three functions satisfy the equations of the
  library's scanner, which has no such test.
\<close>

lemma skip_ws_length: "length (skip_ws s) \<le> length s"
  by (simp add: skip_ws_def length_dropWhile_le)

lemma skip_ws_Cons_length: "skip_ws s = d # ds \<Longrightarrow> length ds < length s"
  using skip_ws_length [of s] by simp

lemma cons_char_Inr:
  "cons_char c x = Inr (str, r) \<Longrightarrow> \<exists>str'. x = Inr (str', r)"
  by (auto simp: cons_char_def split: sum.splits)

lemma scanstring_shorter: "scanstring s = Inr (str, r) \<Longrightarrow> length r < length s"
proof (induction s arbitrary: str rule: scanstring.induct)
  case 1
  then show ?case by simp
next
  case (2 c cs)
  show ?case
  proof (cases "c = CHR 0x22")
    case True
    with "2.prems" show ?thesis by simp
  next
    case quote: False
    show ?thesis
    proof (cases "c = CHR 0x5C")
      case False
      with quote "2.prems" have "\<exists>str'. scanstring cs = Inr (str', r)"
        by (auto split: if_splits dest: cons_char_Inr)
      with "2.IH"(3) quote False "2.prems" show ?thesis
        by (fastforce split: if_splits)
    next
      case True
      with quote "2.prems" obtain e es where cs: "cs = e # es"
        by (cases cs) auto
      show ?thesis
      proof (cases "e = CHR ''u''")
        case False
        with quote True cs "2.prems" obtain ch where ch: "backslash e = Some ch"
          and "\<exists>str'. scanstring es = Inr (str', r)"
          by (auto split: option.splits dest: cons_char_Inr)
        with "2.IH"(2) [OF quote True cs False ch] cs show ?thesis
          by fastforce
      next
        case u: True
        with quote True cs "2.prems" obtain h1 h2 h3 h4 rest n where
          es: "es = h1 # h2 # h3 # h4 # rest" and n: "hex4 h1 h2 h3 h4 = Some n" "n < 256"
          and "\<exists>str'. scanstring rest = Inr (str', r)"
          by (auto split: list.splits option.splits if_splits dest: cons_char_Inr)
        with "2.IH"(1) [OF quote True cs u] cs show ?thesis
          by fastforce
      qed
    qed
  qed
qed

lemma startswith_drop_shorter:
  "startswith s p \<Longrightarrow> p \<noteq> [] \<Longrightarrow> 0 < k \<Longrightarrow> length (drop k s) < length s"
  by (cases s) (auto simp: startswith_def)

lemma match_integer_shorter: "match_integer s = Some (i, r) \<Longrightarrow> length r < length s"
  by (auto simp: match_integer_def less_Suc_eq_le length_dropWhile_le
        intro: le_SucI split: list.splits if_splits)

lemma match_frac_length: "length (snd (match_frac s)) \<le> length s"
  by (auto simp: match_frac_def length_dropWhile_le intro: le_SucI split: list.splits)

lemma length_dropWhile_Suc_Suc: "length (dropWhile P xs) \<le> Suc (Suc (length xs))"
  using length_dropWhile_le [of P xs] by simp

lemma match_exp_length: "length (snd (match_exp s)) \<le> length s"
  by (auto simp: match_exp_def length_dropWhile_Suc_Suc split: list.splits)

lemma match_number_shorter: "match_number s = Some (lexeme, r) \<Longrightarrow> length r < length s"
proof -
  assume a: "match_number s = Some (lexeme, r)"
  then obtain i r1 where i: "match_integer s = Some (i, r1)"
    by (auto simp: match_number_def split: option.splits)
  with a have "r = snd (match_exp (snd (match_frac r1)))"
    by (auto simp: match_number_def split: prod.splits)
  then have "length r \<le> length r1"
    using match_exp_length [of "snd (match_frac r1)"] match_frac_length [of r1] by simp
  with match_integer_shorter [OF i] show ?thesis by simp
qed

lemma scan_atom_shorter: "scan_atom s = Inr (v, r) \<Longrightarrow> length r < length s"
  by (auto simp: scan_atom_def split: if_splits option.splits
        dest: match_number_shorter intro: startswith_drop_shorter)

lemma scan_shorter:
  "scan_once s = Inr (v, r) \<Longrightarrow> length r < length s"
  "array_items s vals = Inr (v, r) \<Longrightarrow> length r < length s"
  "object_members s pairs = Inr (v, r) \<Longrightarrow> length r < length s"
proof (induction s and s vals and s pairs arbitrary: v r and v r and v r
    rule: scan_once_array_items_object_members.induct)
  case (1 s)
  show ?case
  proof (cases s)
    case Nil
    with "1.prems" show ?thesis by (simp add: scan_once.simps)
  next
    case (Cons c cs)
    consider (str) "c = CHR 0x22" | (obj) "c \<noteq> CHR 0x22" "c = CHR ''{''"
      | (arr) "c \<noteq> CHR 0x22" "c \<noteq> CHR ''{''" "c = CHR ''[''"
      | (atom) "c \<noteq> CHR 0x22" "c \<noteq> CHR ''{''" "c \<noteq> CHR ''[''"
      by blast
    then show ?thesis
    proof cases
      case str
      with Cons "1.prems" show ?thesis
        by (subst (asm) scan_once.simps)
           (auto split: sum.splits dest: scanstring_shorter)
    next
      case obj
      with Cons "1.prems" obtain d ds where ws: "skip_ws cs = d # ds"
        by (subst (asm) scan_once.simps) (auto split: list.splits)
      then have len: "length ds < length cs" by (rule skip_ws_Cons_length)
      show ?thesis
      proof (cases "d = CHR ''}''")
        case True
        with Cons obj ws "1.prems" len show ?thesis
          by (subst (asm) scan_once.simps) auto
      next
        case False
        with Cons obj ws "1.prems" len have d: "d = CHR 0x22"
          and run: "object_members ds [] = Inr (v, r)"
          by (subst (asm) scan_once.simps, auto split: if_splits)+
        from "1.IH"(1) [OF Cons obj ws False _ run] d len Cons
        have "length r < length ds" by simp
        with len Cons show ?thesis by simp
      qed
    next
      case arr
      with Cons "1.prems" obtain d ds where ws: "skip_ws cs = d # ds"
        by (subst (asm) scan_once.simps) (auto split: list.splits)
      then have len: "length ds < length cs" by (rule skip_ws_Cons_length)
      show ?thesis
      proof (cases "d = CHR '']''")
        case True
        with Cons arr ws "1.prems" len show ?thesis
          by (subst (asm) scan_once.simps) auto
      next
        case False
        with Cons arr ws "1.prems" len have run: "array_items (d # ds) [] = Inr (v, r)"
          by (subst (asm) scan_once.simps) (auto split: if_splits)
        from "1.IH"(2) [OF Cons arr ws False _ run] len Cons
        have "length r < length (d # ds)" by simp
        with len Cons show ?thesis by simp
      qed
    next
      case atom
      with Cons "1.prems" have "scan_atom s = Inr (v, r)"
        by (subst (asm) scan_once.simps) simp
      then show ?thesis by (rule scan_atom_shorter)
    qed
  qed
next
  case (2 s vals)
  from "2.prems" obtain v0 rest where so: "scan_once s = Inr (v0, rest)"
    by (subst (asm) array_items.simps) (auto split: sum.splits)
  then have rest: "length rest < length s" by (rule "2.IH"(1))
  from "2.prems" so obtain d ds where ws: "skip_ws rest = d # ds"
    by (subst (asm) array_items.simps) (auto split: list.splits)
  then have ds: "length ds < length rest" by (rule skip_ws_Cons_length)
  show ?case
  proof (cases "d = CHR '']''")
    case True
    with "2.prems" so ws have "r = ds"
      by (subst (asm) array_items.simps) simp
    with ds rest show ?thesis by simp
  next
    case False
    with "2.prems" so ws have comma: "d = CHR '',''"
      and guard: "length (skip_ws ds) < length s"
      and run: "array_items (skip_ws ds) (vals @ [v0]) = Inr (v, r)"
      by (subst (asm) array_items.simps, auto split: if_splits)+
    from "2.IH"(2) [OF so refl ws False comma guard run] guard
    show ?thesis by simp
  qed
next
  case (3 s pairs)
  from "3.prems" obtain key r0 where key: "scanstring s = Inr (key, r0)"
    by (subst (asm) object_members.simps) (auto split: sum.splits)
  from "3.prems" key obtain c r1 where ws0: "skip_ws r0 = c # r1"
    by (subst (asm) object_members.simps) (auto split: list.splits)
  from "3.prems" key ws0 have colon: "c = CHR '':'' \<and> length (skip_ws r1) < length s"
    by (subst (asm) object_members.simps) (auto split: if_splits)
  from "3.prems" key ws0 colon obtain v0 r2 where val: "scan_once (skip_ws r1) = Inr (v0, r2)"
    by (subst (asm) object_members.simps) (auto split: sum.splits)
  from "3.IH"(1) [OF key refl ws0 colon val]
  have r2: "length r2 < length (skip_ws r1)" .
  from "3.prems" key ws0 colon val obtain d r3 where ws2: "skip_ws r2 = d # r3"
    by (subst (asm) object_members.simps) (auto split: list.splits)
  then have r3: "length r3 < length r2" by (rule skip_ws_Cons_length)
  show ?case
  proof (cases "d = CHR ''}''")
    case True
    with "3.prems" key ws0 colon val ws2 have "r = r3"
      by (subst (asm) object_members.simps) simp
    with r3 r2 colon show ?thesis by simp
  next
    case False
    with "3.prems" key ws0 colon val ws2 have comma: "d = CHR '',''"
      by (subst (asm) object_members.simps) (auto split: if_splits)
    from "3.prems" key ws0 colon val ws2 False comma obtain q r4 where ws3: "skip_ws r3 = q # r4"
      by (subst (asm) object_members.simps) (auto split: list.splits)
    from "3.prems" key ws0 colon val ws2 False comma ws3
    have quote: "q = CHR 0x22 \<and> length r4 < length s"
      by (subst (asm) object_members.simps) (auto split: if_splits)
    from "3.prems" key ws0 colon val ws2 False comma ws3 quote
    have run: "object_members r4 (pairs @ [(key, v0)]) = Inr (v, r)"
      by (subst (asm) object_members.simps) simp
    from "3.IH"(2) [OF key refl ws0 colon val refl ws2 False comma ws3 quote run] quote
    show ?thesis by simp
  qed
qed

lemma scan_once_unfold:
  "scan_once s =
     (case s of
        [] \<Rightarrow> Inl JSONDecodeError
      | c # cs \<Rightarrow>
          if c = CHR 0x22 then
            (case scanstring cs of Inl e \<Rightarrow> Inl e | Inr (str, rest) \<Rightarrow> Inr (PyStr str, rest))
          else if c = CHR ''{'' then
            (case skip_ws cs of
               [] \<Rightarrow> Inl JSONDecodeError
             | d # ds \<Rightarrow>
                 if d = CHR ''}'' then Inr (PyDict [], ds)
                 else if d = CHR 0x22 then object_members ds []
                 else Inl JSONDecodeError)
          else if c = CHR ''['' then
            (case skip_ws cs of
               [] \<Rightarrow> Inl JSONDecodeError
             | d # ds \<Rightarrow>
                 if d = CHR '']'' then Inr (PyList [], ds)
                 else array_items (d # ds) [])
          else scan_atom s)"
  by (subst scan_once.simps)
     (auto split: list.splits dest: skip_ws_Cons_length)

lemma array_items_unfold:
  "array_items s vals =
     (case scan_once s of
        Inl e \<Rightarrow> Inl e
      | Inr (v, rest) \<Rightarrow>
          (case skip_ws rest of
             [] \<Rightarrow> Inl JSONDecodeError
           | d # ds \<Rightarrow>
               if d = CHR '']'' then Inr (PyList (vals @ [v]), ds)
               else if d = CHR '','' then array_items (skip_ws ds) (vals @ [v])
               else Inl JSONDecodeError))"
proof -
  have "length (skip_ws ds) < length s"
    if "scan_once s = Inr (v, rest)" "skip_ws rest = d # ds" for v rest d ds
    using scan_shorter(1) [OF that(1)] skip_ws_Cons_length [OF that(2)] skip_ws_length [of ds]
    by simp
  then show ?thesis
    by (subst array_items.simps) (auto split: sum.splits list.splits)
qed

lemma object_members_unfold:
  "object_members s pairs =
     (case scanstring s of
        Inl e \<Rightarrow> Inl e
      | Inr (key, r0) \<Rightarrow>
          (case skip_ws r0 of
             [] \<Rightarrow> Inl JSONDecodeError
           | c # r1 \<Rightarrow>
               if c = CHR '':'' then
                 (case scan_once (skip_ws r1) of
                    Inl e \<Rightarrow> Inl e
                  | Inr (v, r2) \<Rightarrow>
                      (case skip_ws r2 of
                         [] \<Rightarrow> Inl JSONDecodeError
                       | d # r3 \<Rightarrow>
                           if d = CHR ''}'' then Inr (PyDict (dict_of_pairs (pairs @ [(key, v)])), r3)
                           else if d = CHR '','' then
                             (case skip_ws r3 of
                                [] \<Rightarrow> Inl JSONDecodeError
                              | q # r4 \<Rightarrow>
                                  if q = CHR 0x22 then object_members r4 (pairs @ [(key, v)])
                                  else Inl JSONDecodeError)
                           else Inl JSONDecodeError))
               else Inl JSONDecodeError))"
proof -
  have g1: "length (skip_ws r1) < length s"
    if "scanstring s = Inr (key, r0)" "skip_ws r0 = c # r1" for key r0 c r1
    using scanstring_shorter [OF that(1)] skip_ws_Cons_length [OF that(2)] skip_ws_length [of r1]
    by simp
  have g2: "length r4 < length s"
    if "scanstring s = Inr (key, r0)" "skip_ws r0 = c # r1" "scan_once (skip_ws r1) = Inr (v, r2)"
       "skip_ws r2 = d # r3" "skip_ws r3 = q # r4" for key r0 c r1 v r2 d r3 q r4
    using g1 [OF that(1,2)] scan_shorter(1) [OF that(3)] skip_ws_Cons_length [OF that(4)]
      skip_ws_Cons_length [OF that(5)]
    by simp
  show ?thesis
    by (subst object_members.simps)
       (auto split: sum.splits list.splits simp: g1 g2)
qed

section \<open>The handler, branch by branch\<close>

lemma forwarder_load_error:
  "load_config (config_file w) = Inl e \<Longrightarrow> forwarder net now sender message w = (Inl e, w)"
  by (simp add: forwarder_def)

lemma forwarder_not_str:
  "load_config (config_file w) = Inr v \<Longrightarrow> (\<forall>u. v \<noteq> PyStr u) \<Longrightarrow>
   forwarder net now sender message w = (Inl AttributeError, w)"
  by (cases v) (simp_all add: forwarder_def)

lemma forwarder_rejects:
  "load_config (config_file w) = Inr (PyStr u) \<Longrightarrow> \<not> startswith u WEBHOOK_PREFIX \<Longrightarrow>
   forwarder net now sender message w =
     (Inr [(''status'', ''error''), (''detail'', ''Discord webhook not configured correctly.'')], w)"
  by (simp add: forwarder_def)


lemma load_config_absent: "load_config Absent = Inr (PyStr '''')"
  by (simp add: load_config_def)

lemma empty_not_webhook: "\<not> startswith '''' WEBHOOK_PREFIX"
  by (simp add: startswith_def WEBHOOK_PREFIX_def)

lemma example_url_webhook: "startswith ''https://discord.com/api/webhooks/123/abc'' WEBHOOK_PREFIX"
  by (simp add: startswith_def WEBHOOK_PREFIX_def)



lemma raise_for_status_None:
  "status_code r < 400 \<or> 600 \<le> status_code r \<Longrightarrow> raise_for_status r = None"
  by (auto simp: raise_for_status_def)

section \<open>Forwarding a message\<close>



section \<open>A missing or foreign webhook URL\<close>



text \<open>
  C7. The claim as stated, that the detail of this error response is
  \<^verbatim>\<open>webhook not configured correctly\<close>, fails: the handler's text begins with
  \<^verbatim>\<open>Discord\<close> and ends with a full stop.
\<close>

theorem not_configured_detail_counterexample:
  "fst (forwarder (reply_with (Raises ''unreachable'')) \<lparr>hour = 9, minute = 5\<rparr> ''Alice'' ''Hello''
         \<lparr>config_file = Absent, outbox = []\<rparr>) \<noteq>
   Inr [(''status'', ''error''), (''detail'', ''webhook not configured correctly'')]"
  by (simp add: forwarder_rejects [OF _ empty_not_webhook] load_config_absent)

text \<open>
  C7, amended. When the stored URL is a string that fails the prefix check, the detail of
  the handler's error response is exactly
  \<^verbatim>\<open>Discord webhook not configured correctly.\<close>
\<close>

theorem not_configured_detail:
  assumes "load_config (config_file w) = Inr (PyStr u)" and "\<not> startswith u WEBHOOK_PREFIX"
  shows "fst (forwarder net now sender message w) =
           Inr [(''status'', ''error''), (''detail'', ''Discord webhook not configured correctly.'')]"
  using assms by (simp add: forwarder_rejects)

theorem not_configured_detail_witness:
  "fst (forwarder (reply_with (Raises ''unreachable'')) \<lparr>hour = 9, minute = 5\<rparr> ''Alice'' ''Hello''
         \<lparr>config_file = Absent, outbox = []\<rparr>) =
   Inr [(''status'', ''error''), (''detail'', ''Discord webhook not configured correctly.'')]"
  using not_configured_detail [of "\<lparr>config_file = Absent, outbox = []\<rparr>" "''''"
      "reply_with (Raises ''unreachable'')" "\<lparr>hour = 9, minute = 5\<rparr>" "''Alice''" "''Hello''"]
  by (simp add: load_config_absent empty_not_webhook)

section \<open>Delivery failures\<close>




section \<open>The frame and the shape of a response\<close>

text \<open>
  C8. Handling a request never changes the config file: whatever the outcome (an
  exception, not configured, a delivery failure, success), the file after the call is
  the file before it. The handler only reads it, at each request: its answer depends
  on the state it is called in through the config file alone, not through the
  requests sent before.
\<close>

theorem forwarder_keeps_config:
  "config_file (snd (forwarder net now sender message w)) = config_file w \<and>
   fst (forwarder net now sender message w) =
     fst (forwarder net now sender message \<lparr>config_file = config_file w, outbox = []\<rparr>)"
  by (simp add: forwarder_def requests_post_def Let_def
        split: sum.split pyval.split post_outcome.split option.split)

text \<open>
  C9. Whenever the handler returns a value, it is \<^verbatim>\<open>{"status": "forwarded"}\<close> with
  no other key, or \<^verbatim>\<open>{"status": "error", "detail": d}\<close> with these two keys; the
  key \<^verbatim>\<open>detail\<close> is present exactly when the status is \<^verbatim>\<open>error\<close>.
\<close>

theorem forwarder_response_shape:
  assumes "forwarder net now sender message w = (Inr r, w')"
  shows "(r = [(''status'', ''forwarded'')] \<or> (\<exists>d. r = [(''status'', ''error''), (''detail'', d)])) \<and>
         ((''detail'' \<in> fst ` set r) = (map_of r ''status'' = Some ''error''))"
  using assms
  by (auto simp: forwarder_def requests_post_def Let_def
        split: sum.splits pyval.splits post_outcome.splits option.splits if_splits)

theorem forwarder_response_shape_witness:
  "forwarder (reply_with (Raises ''unreachable'')) \<lparr>hour = 9, minute = 5\<rparr> ''Alice'' ''Hello''
      \<lparr>config_file = Absent, outbox = []\<rparr> =
     (Inr [(''status'', ''error''), (''detail'', ''Discord webhook not configured correctly.'')],
      \<lparr>config_file = Absent, outbox = []\<rparr>) \<and>
   ([(''status'', ''error''), (''detail'', ''Discord webhook not configured correctly.'')] = [(''status'', ''forwarded'')] \<or>
    (\<exists>d. [(''status'', ''error''), (''detail'', ''Discord webhook not configured correctly.'')] =
           [(''status'', ''error''), (''detail'', d)])) \<and>
   ((''detail'' \<in> fst ` set [(''status'', ''error''), (''detail'', ''Discord webhook not configured correctly.'')]) =
    (map_of [(''status'', ''error''), (''detail'', ''Discord webhook not configured correctly.'')] ''status'' = Some ''error''))"
proof -
  have run: "forwarder (reply_with (Raises ''unreachable'')) \<lparr>hour = 9, minute = 5\<rparr> ''Alice'' ''Hello''
      \<lparr>config_file = Absent, outbox = []\<rparr> =
     (Inr [(''status'', ''error''), (''detail'', ''Discord webhook not configured correctly.'')],
      \<lparr>config_file = Absent, outbox = []\<rparr>)"
    by (simp add: forwarder_rejects [OF _ empty_not_webhook] load_config_absent)
  show ?thesis
    using forwarder_response_shape [OF run] run by blast
qed

section \<open>Loading the config file\<close>





section \<open>Reading back what \<^verbatim>\<open>json.dump\<close> wrote\<close>

lemma hexval_hex_digit:
  assumes "k < 16" shows "hexval (''0123456789abcdef'' ! k) = Some k"
proof -
  from assms have "k = 0 \<or> k = 1 \<or> k = 2 \<or> k = 3 \<or> k = 4 \<or> k = 5 \<or> k = 6 \<or> k = 7 \<or>
      k = 8 \<or> k = 9 \<or> k = 10 \<or> k = 11 \<or> k = 12 \<or> k = 13 \<or> k = 14 \<or> k = 15"
    by arith
  then show ?thesis by (auto simp: hexval_def)
qed

lemma hexval_hex_char: "hexval (hex_char d) = Some (d mod 16)"
  by (simp add: hex_char_def hexval_hex_digit)

lemma hexval_zero: "hexval (CHR ''0'') = Some 0"
  by (simp add: hexval_def)

lemma hex4_byte:
  assumes "n < 256"
  shows "hex4 (CHR ''0'') (CHR ''0'') (hex_char (n div 16)) (hex_char n) = Some n"
proof -
  have "(n div 16) mod 16 = n div 16" using assms by simp
  then show ?thesis
    by (simp add: hex4_def hexval_hex_char hexval_zero)
qed

text \<open>The scanner undoes the escape of each character, hence of each string.\<close>

lemma scanstring_escape_char:
  "scanstring (escape_char c @ t) = cons_char c (scanstring t)"
proof -
  have n: "(of_char c :: nat) < 256" by simp
  show ?thesis
    by (auto simp: escape_char_def backslash_def hex4_byte [OF n])
qed

lemma scanstring_encoded:
  "scanstring (concat (map escape_char s) @ CHR 0x22 # rest) = Inr (s, rest)"
  by (induction s) (simp_all add: scanstring_escape_char cons_char_def)

text \<open>The text written for a key and a string value parses as the dict of that one pair.\<close>

lemma json_loads_dump:
  "json_loads (json_dump_indent2 key val) = Inr (PyDict [(key, PyStr val)])"
proof -
  let ?k = "concat (map escape_char key)" and ?v = "concat (map escape_char val)"
  let ?tail = "[CHR 0x0A, CHR ''}'']"
  let ?after_key = "CHR '':'' # CHR '' '' # CHR 0x22 # ?v @ CHR 0x22 # ?tail"
  have val: "scan_once (CHR 0x22 # ?v @ CHR 0x22 # ?tail) = Inr (PyStr val, ?tail)"
    by (simp add: scan_once.simps scanstring_encoded)
  have members: "object_members (?k @ CHR 0x22 # ?after_key) [] = Inr (PyDict [(key, PyStr val)], [])"
    by (subst object_members.simps)
       (simp add: scanstring_encoded skip_ws_def json_ws_def val dict_of_pairs_def)
  have doc: "scan_once (CHR ''{'' # CHR 0x0A # CHR '' '' # CHR '' '' # CHR 0x22 # ?k @ CHR 0x22 # ?after_key)
      = Inr (PyDict [(key, PyStr val)], [])"
    by (subst scan_once.simps) (simp add: skip_ws_def json_ws_def members)
  show ?thesis
    by (simp add: json_loads_def json_dump_indent2_def encode_basestring_ascii_def
          skip_ws_def json_ws_def doc)
qed

lemma load_after_save:
  "save_config url f = Inr f' \<Longrightarrow> load_config f' = Inr (PyStr url)"
  by (auto simp: save_config_def load_config_def json_loads_dump py_get_def split: file_state.splits)

lemma save_config_succeeds:
  "f \<noteq> Unopenable \<Longrightarrow> save_config url f = Inr (Text (json_dump_indent2 CONFIG_KEY url))"
  by (cases f) (simp_all add: save_config_def)

lemma saved_text_example:
  \<open>json_dump_indent2 CONFIG_KEY ''https://discord.com/api/webhooks/123/abc'' =
     ''{'' @ [CHR 0x0A] @ ''  "discord_webhook_url": "https://discord.com/api/webhooks/123/abc"'' @
     [CHR 0x0A] @ ''}''\<close>
  by code_simp



section \<open>The startup prompt loop\<close>

lemma prompt_accepts:
  "startswith (strip line) WEBHOOK_PREFIX \<Longrightarrow>
   prompt_for_webhook (line # rest) f =
     (case save_config (strip line) f of
        Inl e \<Rightarrow> (Inl e, f, rest)
      | Inr f' \<Rightarrow> (Inr (strip line), f', rest))"
  by (simp add: Let_def)

lemma prompt_skips:
  "\<forall>l\<in>set rejected. \<not> startswith (strip l) WEBHOOK_PREFIX \<Longrightarrow>
   prompt_for_webhook (rejected @ later) f = prompt_for_webhook later f"
  by (induction rejected) (simp_all add: Let_def)

lemma prompt_sound:
  "prompt_for_webhook stdin f = (Inr v, f', rest) \<Longrightarrow>
   \<exists>rejected line. stdin = rejected @ line # rest \<and>
     (\<forall>l\<in>set rejected. \<not> startswith (strip l) WEBHOOK_PREFIX) \<and>
     v = strip line \<and> startswith v WEBHOOK_PREFIX \<and> save_config v f = Inr f'"
proof (induction stdin)
  case Nil
  then show ?case by simp
next
  case (Cons l ls)
  show ?case
  proof (cases "startswith (strip l) WEBHOOK_PREFIX")
    case True
    with Cons.prems have "ls = rest \<and> v = strip l \<and> save_config v f = Inr f'"
      by (auto simp: Let_def split: sum.splits)
    with True have "l # ls = [] @ l # rest \<and> (\<forall>x\<in>set []. \<not> startswith (strip x) WEBHOOK_PREFIX) \<and>
        v = strip l \<and> startswith v WEBHOOK_PREFIX \<and> save_config v f = Inr f'"
      by auto
    then show ?thesis by blast
  next
    case False
    with Cons.prems have "prompt_for_webhook ls f = (Inr v, f', rest)" by (simp add: Let_def)
    from Cons.IH [OF this] obtain rejected line where
      *: "ls = rejected @ line # rest" "\<forall>x\<in>set rejected. \<not> startswith (strip x) WEBHOOK_PREFIX"
         "v = strip line" "startswith v WEBHOOK_PREFIX" "save_config v f = Inr f'"
      by blast
    with False have "l # ls = (l # rejected) @ line # rest \<and>
        (\<forall>x\<in>set (l # rejected). \<not> startswith (strip x) WEBHOOK_PREFIX) \<and>
        v = strip line \<and> startswith v WEBHOOK_PREFIX \<and> save_config v f = Inr f'"
      by simp
    then show ?thesis by blast
  qed
qed

lemma main_enters_prompt:
  "load_config f = Inr (PyStr stored) \<Longrightarrow> \<not> startswith stored WEBHOOK_PREFIX \<Longrightarrow>
   main stdin f = prompt_for_webhook stdin f"
  by (simp add: main_def)

lemma strip_example:
  "strip (''  https://discord.com/api/webhooks/123/abc '' @ [CHR 0x09]) = ''https://discord.com/api/webhooks/123/abc''"
  by code_simp

lemma strip_notaurl: "\<not> startswith (strip ''notaurl'') WEBHOOK_PREFIX"
  by code_simp

lemma strip_clean_example:
  "strip ''https://discord.com/api/webhooks/123/abc'' = ''https://discord.com/api/webhooks/123/abc''"
  by code_simp

text \<open>
  C6. The prompt loop returns only a URL that starts with the webhook prefix. It
  returns \<open>v\<close> with the file \<open>f'\<close> and the unread lines \<open>rest\<close> exactly when the
  lines read are some rejected lines, none of which passes the prefix check once
  stripped, followed by a line whose stripped form \<open>v\<close> passes it, and \<open>f'\<close> is the
  file that \<open>save_config v\<close> wrote; that file loads as \<open>v\<close>. When the stored value
  fails the check at startup, \<open>main\<close> runs this loop, and the server starts with what
  it returns.
\<close>

theorem prompt_loop_invariant:
  "((prompt_for_webhook stdin f = (Inr v, f', rest)) =
      (\<exists>rejected line. stdin = rejected @ line # rest \<and>
         (\<forall>l\<in>set rejected. \<not> startswith (strip l) WEBHOOK_PREFIX) \<and>
         v = strip line \<and> startswith v WEBHOOK_PREFIX \<and> save_config v f = Inr f')) \<and>
   (prompt_for_webhook stdin f = (Inr v, f', rest) \<longrightarrow> load_config f' = Inr (PyStr v)) \<and>
   (load_config f = Inr (PyStr stored) \<and> \<not> startswith stored WEBHOOK_PREFIX \<longrightarrow>
      main stdin f = prompt_for_webhook stdin f)"
proof (intro conjI impI iffI)
  assume "prompt_for_webhook stdin f = (Inr v, f', rest)"
  then show "\<exists>rejected line. stdin = rejected @ line # rest \<and>
         (\<forall>l\<in>set rejected. \<not> startswith (strip l) WEBHOOK_PREFIX) \<and>
         v = strip line \<and> startswith v WEBHOOK_PREFIX \<and> save_config v f = Inr f'"
    by (rule prompt_sound)
next
  assume "\<exists>rejected line. stdin = rejected @ line # rest \<and>
         (\<forall>l\<in>set rejected. \<not> startswith (strip l) WEBHOOK_PREFIX) \<and>
         v = strip line \<and> startswith v WEBHOOK_PREFIX \<and> save_config v f = Inr f'"
  then obtain rejected line where
    *: "stdin = rejected @ line # rest" "\<forall>l\<in>set rejected. \<not> startswith (strip l) WEBHOOK_PREFIX"
       "v = strip line" "startswith v WEBHOOK_PREFIX" "save_config v f = Inr f'"
    by blast
  have "prompt_for_webhook stdin f = prompt_for_webhook (line # rest) f"
    using *(1,2) by (simp add: prompt_skips)
  also have "\<dots> = (Inr v, f', rest)"
    using *(3,4,5) by (simp add: prompt_accepts)
  finally show "prompt_for_webhook stdin f = (Inr v, f', rest)" .
next
  assume "prompt_for_webhook stdin f = (Inr v, f', rest)"
  then have "save_config v f = Inr f'"
    using prompt_sound by blast
  then show "load_config f' = Inr (PyStr v)"
    by (rule load_after_save)
next
  assume "load_config f = Inr (PyStr stored) \<and> \<not> startswith stored WEBHOOK_PREFIX"
  then show "main stdin f = prompt_for_webhook stdin f"
    by (simp add: main_enters_prompt)
qed

theorem prompt_loop_invariant_witness:
  "main [''notaurl'', ''https://discord.com/api/webhooks/123/abc''] Absent =
     (Inr ''https://discord.com/api/webhooks/123/abc'',
      Text (json_dump_indent2 CONFIG_KEY ''https://discord.com/api/webhooks/123/abc''), []) \<and>
   load_config (Text (json_dump_indent2 CONFIG_KEY ''https://discord.com/api/webhooks/123/abc'')) =
     Inr (PyStr ''https://discord.com/api/webhooks/123/abc'')"
proof -
  let ?u = "''https://discord.com/api/webhooks/123/abc''"
  let ?f' = "Text (json_dump_indent2 CONFIG_KEY ?u)"
  note inv = prompt_loop_invariant [of "[''notaurl'', ?u]" Absent ?u ?f' "[]" "''''"]
  have ex: "\<exists>rejected line. [''notaurl'', ?u] = rejected @ line # [] \<and>
         (\<forall>l\<in>set rejected. \<not> startswith (strip l) WEBHOOK_PREFIX) \<and>
         ?u = strip line \<and> startswith ?u WEBHOOK_PREFIX \<and> save_config ?u Absent = Inr ?f'"
  proof (intro exI conjI)
    show "[''notaurl'', ?u] = [''notaurl''] @ ?u # []" by simp
    show "\<forall>l\<in>set [''notaurl'']. \<not> startswith (strip l) WEBHOOK_PREFIX"
      by (simp add: strip_notaurl)
    show "?u = strip ?u" by (simp add: strip_clean_example)
    show "startswith ?u WEBHOOK_PREFIX" by (rule example_url_webhook)
    show "save_config ?u Absent = Inr ?f'" by (simp add: save_config_def)
  qed
  from inv ex have run: "prompt_for_webhook [''notaurl'', ?u] Absent = (Inr ?u, ?f', [])"
    by blast
  from inv run have "load_config ?f' = Inr (PyStr ?u)" by blast
  moreover from inv have "main [''notaurl'', ?u] Absent = prompt_for_webhook [''notaurl'', ?u] Absent"
    using load_config_absent empty_not_webhook by blast
  ultimately show ?thesis using run by simp
qed

text \<open>
  C10. The prompt strips leading and trailing whitespace before the prefix check: a
  line whose stripped form starts with the webhook prefix is accepted, whatever
  whitespace surrounds it, and the value saved and returned is the stripped string.
\<close>

theorem prompt_strips_input:
  assumes "startswith (strip line) WEBHOOK_PREFIX" and "save_config (strip line) f = Inr f'"
  shows "prompt_for_webhook (line # rest) f = (Inr (strip line), f', rest) \<and>
         load_config f' = Inr (PyStr (strip line))"
  using assms by (simp add: load_after_save Let_def)

theorem prompt_strips_input_witness:
  "\<not> startswith (''  https://discord.com/api/webhooks/123/abc '' @ [CHR 0x09]) WEBHOOK_PREFIX \<and>
   prompt_for_webhook [''  https://discord.com/api/webhooks/123/abc '' @ [CHR 0x09]] Absent =
     (Inr ''https://discord.com/api/webhooks/123/abc'',
      Text (json_dump_indent2 CONFIG_KEY ''https://discord.com/api/webhooks/123/abc''), []) \<and>
   load_config (Text (json_dump_indent2 CONFIG_KEY ''https://discord.com/api/webhooks/123/abc'')) =
     Inr (PyStr ''https://discord.com/api/webhooks/123/abc'')"
proof -
  have raw: "\<not> startswith (''  https://discord.com/api/webhooks/123/abc '' @ [CHR 0x09]) WEBHOOK_PREFIX"
    by (simp add: startswith_def WEBHOOK_PREFIX_def)
  have pre: "startswith (strip (''  https://discord.com/api/webhooks/123/abc '' @ [CHR 0x09])) WEBHOOK_PREFIX"
    by (simp only: strip_example example_url_webhook)
  have sv: "save_config (strip (''  https://discord.com/api/webhooks/123/abc '' @ [CHR 0x09])) Absent =
      Inr (Text (json_dump_indent2 CONFIG_KEY ''https://discord.com/api/webhooks/123/abc''))"
    by (simp only: strip_example) (simp add: save_config_def)
  show ?thesis
    using prompt_strips_input [OF pre sv, of "[]"] raw by (simp only: strip_example) simp
qed

end
